theory Spec2Isabelle
  imports Main "HOL-Library.Char_ord" "HOL-Library.List_Lexorder"
begin

section \<open>Loop detection on a state machine (dace, loop\_detection.py)\<close>

text \<open>
  The development embeds \<^verbatim>\<open>DetectLoop.can_be_applied\<close> and \<^verbatim>\<open>find_for_loop\<close> of
  \<^verbatim>\<open>dace/transformation/interstate/loop_detection.py\<close>. Both functions are read-only
  queries on a state machine (an SDFG): states are nodes, inter-state edges carry a
  dictionary of assignments and a condition. The functions rely on collaborators that
  are not part of the file: the graph queries and the traversal of \<^verbatim>\<open>dace.sdfg\<close>, the
  symbolic engine (sympy, through \<^verbatim>\<open>dace.symbolic\<close>) and the dominator computation of
  networkx. Each collaborator is given an executable model below, marked as such.
\<close>

subsection \<open>Errors\<close>

text \<open>
  The Python exceptions that the two functions can let escape: an index out of range
  (\<^verbatim>\<open>graph.node(id)\<close>, \<^verbatim>\<open>edges_between(...)[0]\<close>, \<^verbatim>\<open>guard_inedges[1]\<close>,
  \<^verbatim>\<open>list(keys())[0]\<close>), a missing dictionary key (\<^verbatim>\<open>assignments[itervar]\<close>,
  \<^verbatim>\<open>dominators[dom]\<close>) and the error of networkx for a start node outside the graph.
\<close>

datatype error = IndexError | KeyError | NetworkXError

subsection \<open>Expression model\<close>

text \<open>
  Modelled from the spec: the symbolic engine (sympy and \<^verbatim>\<open>dace.symbolic\<close>) is not part of
  the file. The spec asks for symbols, integer constants, \<open>+\<close> and \<open>-\<close>, the four
  comparisons, logical negation, structural equality after normalisation, free symbols
  and matching against a comparison template with one wildcard.

  The text of an assignment or of a condition is represented by its syntax tree
  (\<open>aexpr\<close>, \<open>bexpr\<close>); parsing characters is outside the model.
\<close>

datatype aexpr = Name string | Num int | BinAdd aexpr aexpr | BinSub aexpr aexpr

datatype relop = Lt | LtE | Gt | GtE

datatype bexpr =
    Compare relop aexpr aexpr
  | UnaryNot bexpr
  | BoolName string
  | NameConstant bool

text \<open>
  A normalised arithmetic expression is a linear form: a constant plus a sum of
  symbols with non-zero integer coefficients, the symbols in increasing order. Two
  arithmetic expressions are structurally equal after normalisation iff their linear
  forms are equal; \<open>i + 1 - i\<close> normalises to the constant \<open>1\<close>.
\<close>

datatype symexpr = Lin int "(string \<times> int) list"

fun add_term :: "string \<Rightarrow> int \<Rightarrow> (string \<times> int) list \<Rightarrow> (string \<times> int) list" where
  "add_term x k [] = (if k = 0 then [] else [(x, k)])"
| "add_term x k ((y, c) # ts) =
     (if x = y then (if c + k = 0 then ts else (y, c + k) # ts)
      else if x < y then (if k = 0 then (y, c) # ts else (x, k) # (y, c) # ts)
      else (y, c) # add_term x k ts)"

fun sym_add :: "symexpr \<Rightarrow> symexpr \<Rightarrow> symexpr" where
  "sym_add (Lin c ts) (Lin d us) = Lin (c + d) (fold (\<lambda>(x, k). add_term x k) us ts)"

fun sym_neg :: "symexpr \<Rightarrow> symexpr" where
  "sym_neg (Lin c ts) = Lin (- c) (map (\<lambda>(x, k). (x, - k)) ts)"

definition sym_sub :: "symexpr \<Rightarrow> symexpr \<Rightarrow> symexpr" where
  "sym_sub a b = sym_add a (sym_neg b)"

definition symbol :: "string \<Rightarrow> symexpr" where
  "symbol x = Lin 0 [(x, 1)]"

definition integer :: "int \<Rightarrow> symexpr" where
  "integer n = Lin n []"

fun free_symbols :: "symexpr \<Rightarrow> string set" where
  "free_symbols (Lin c ts) = set (map fst ts)"

text \<open>\<^verbatim>\<open>symbolic.pystr_to_symbolic\<close> on the text of an assignment.\<close>

fun pystr_to_symbolic :: "aexpr \<Rightarrow> symexpr" where
  "pystr_to_symbolic (Name x) = symbol x"
| "pystr_to_symbolic (Num n) = integer n"
| "pystr_to_symbolic (BinAdd a b) = sym_add (pystr_to_symbolic a) (pystr_to_symbolic b)"
| "pystr_to_symbolic (BinSub a b) = sym_sub (pystr_to_symbolic a) (pystr_to_symbolic b)"

text \<open>
  A normalised condition: a comparison of two normalised arithmetic expressions (kept
  with the operator and the sides as written), a boolean symbol or its negation, or a
  constant. \<open>sp_Not\<close> is sympy's \<^verbatim>\<open>Not\<close>: the negation of a comparison is the
  complementary comparison, a double negation cancels, a constant is flipped, and only
  the negation of a boolean symbol stays a negation.
\<close>

datatype symbool =
    Rel relop symexpr symexpr
  | BooleanSymbol string
  | NotSymbol string
  | BooleanTrue
  | BooleanFalse

fun negated :: "relop \<Rightarrow> relop" where
  "negated Lt = GtE"
| "negated LtE = Gt"
| "negated Gt = LtE"
| "negated GtE = Lt"

fun sp_Not :: "symbool \<Rightarrow> symbool" where
  "sp_Not (Rel op a b) = Rel (negated op) a b"
| "sp_Not (BooleanSymbol x) = NotSymbol x"
| "sp_Not (NotSymbol x) = BooleanSymbol x"
| "sp_Not BooleanTrue = BooleanFalse"
| "sp_Not BooleanFalse = BooleanTrue"

fun cond_to_symbolic :: "bexpr \<Rightarrow> symbool" where
  "cond_to_symbolic (Compare op a b) = Rel op (pystr_to_symbolic a) (pystr_to_symbolic b)"
| "cond_to_symbolic (UnaryNot b) = sp_Not (cond_to_symbolic b)"
| "cond_to_symbolic (BoolName x) = BooleanSymbol x"
| "cond_to_symbolic (NameConstant b) = (if b then BooleanTrue else BooleanFalse)"

text \<open>
  \<^verbatim>\<open>condition.match(itersym < a)\<close> and its three siblings, with \<open>a\<close> the wildcard: the
  template \<open>itersym op a\<close> matches a comparison with the same operator whose left side
  is the iteration symbol, and binds the wildcard to the right side. The result is the
  binding of the wildcard; \<open>None\<close> is a miss.
\<close>

fun sym_match :: "symbool \<Rightarrow> relop \<Rightarrow> string \<Rightarrow> symexpr option" where
  "sym_match (Rel op' l r) op itervar =
     (if op' = op \<and> l = symbol itervar then Some r else None)"
| "sym_match (BooleanSymbol x) op itervar = None"
| "sym_match (NotSymbol x) op itervar = None"
| "sym_match BooleanTrue op itervar = None"
| "sym_match BooleanFalse op itervar = None"

subsection \<open>Data model: states, inter-state edges, the state machine\<close>

text \<open>
  A state is an opaque identity; it is represented by its label. An inter-state edge
  carries a dictionary of assignments (an association list in insertion order, as a
  Python dictionary keeps it) and a condition. The state machine lists its nodes and
  its edges in order and names its start state (the property \<^verbatim>\<open>start_state\<close> of
  \<^verbatim>\<open>dace.sdfg\<close>, which is the only state without incoming transitions or else the
  state that was marked as the start).
\<close>

type_synonym SDFGState = string

record InterstateEdge =
  assignments :: "(string \<times> aexpr) list"
  condition :: bexpr

record Edge =
  src :: SDFGState
  dst :: SDFGState
  data :: InterstateEdge

record SDFG =
  nodes :: "SDFGState list"
  edges :: "Edge list"
  start_state :: SDFGState

definition condition_sympy :: "InterstateEdge \<Rightarrow> symbool" where
  "condition_sympy e = cond_to_symbolic (condition e)"

text \<open>
  Modelled from the spec: the graph queries of \<^verbatim>\<open>dace.sdfg\<close> are not part of the file.
  They list the transitions into a node, out of a node and between two nodes, in the
  order of the edge list, and look a node up by its index.
\<close>

definition in_edges :: "SDFG \<Rightarrow> SDFGState \<Rightarrow> Edge list" where
  "in_edges g n = filter (\<lambda>e. dst e = n) (edges g)"

definition out_edges :: "SDFG \<Rightarrow> SDFGState \<Rightarrow> Edge list" where
  "out_edges g n = filter (\<lambda>e. src e = n) (edges g)"

definition edges_between :: "SDFG \<Rightarrow> SDFGState \<Rightarrow> SDFGState \<Rightarrow> Edge list" where
  "edges_between g u v = filter (\<lambda>e. src e = u \<and> dst e = v) (edges g)"

definition node :: "SDFG \<Rightarrow> nat \<Rightarrow> error + SDFGState" where
  "node g i = (if i < length (nodes g) then Inr (nodes g ! i) else Inl IndexError)"

subsection \<open>find\_for\_loop\<close>

text \<open>
  \<^verbatim>\<open>pystr_to_symbolic(guard_inedges[k].data.assignments[itervar])\<close>: the list index and the
  dictionary lookup can both fail.
\<close>

definition inedge_update :: "Edge list \<Rightarrow> nat \<Rightarrow> string \<Rightarrow> error + symexpr" where
  "inedge_update guard_inedges k itervar =
     (if k < length guard_inedges
      then (case map_of (assignments (data (guard_inedges ! k))) itervar of
              None \<Rightarrow> Inl KeyError
            | Some rhs \<Rightarrow> Inr (pystr_to_symbolic rhs))
      else Inl IndexError)"

text \<open>
  The function follows the source line by line. The source tests
  \<^verbatim>\<open>itersym in E0.free_symbols and itersym not in E1.free_symbols\<close> and then, in the
  \<^verbatim>\<open>elif\<close>, \<^verbatim>\<open>itersym in E1.free_symbols and itersym not in E0.free_symbols\<close>. \<open>E0\<close> is
  evaluated first and cannot fail (the key is the first key of that dictionary); \<open>E1\<close> is
  evaluated next on every path (as the second conjunct of the \<^verbatim>\<open>if\<close> when the first
  holds, as the first conjunct of the \<^verbatim>\<open>elif\<close> otherwise), so its failure is raised
  before any branch is chosen. The result is \<^verbatim>\<open>(itervar, (start, end, stride))\<close> or
  \<^verbatim>\<open>None\<close>.
\<close>

definition find_for_loop ::
  "SDFG \<Rightarrow> SDFGState \<Rightarrow> SDFGState \<Rightarrow> error + (string \<times> symexpr \<times> symexpr \<times> symexpr) option" where
  "find_for_loop sdfg guard entry =
    (let guard_inedges = in_edges sdfg guard in
     case edges_between sdfg guard entry of
       [] \<Rightarrow> Inl IndexError
     | condition_edge # _ \<Rightarrow>
    (case guard_inedges of
       [] \<Rightarrow> Inl IndexError
     | inedge0 # _ \<Rightarrow>
    (case assignments (data inedge0) of
       [] \<Rightarrow> Inl IndexError
     | (itervar, _) # _ \<Rightarrow>
    (let cond = condition_sympy (data condition_edge);
         itersym = symbol itervar in
     case inedge_update guard_inedges 0 itervar of
       Inl err \<Rightarrow> Inl err
     | Inr update0 \<Rightarrow>
    (case inedge_update guard_inedges 1 itervar of
       Inl err \<Rightarrow> Inl err
     | Inr update1 \<Rightarrow>
    (case (if itervar \<in> free_symbols update0 \<and> itervar \<notin> free_symbols update1
           then Some (sym_sub update0 itersym, update1)
           else if itervar \<in> free_symbols update1 \<and> itervar \<notin> free_symbols update0
           then Some (sym_sub update1 itersym, update0)
           else None) of
       None \<Rightarrow> Inr None
     | Some (stride, start) \<Rightarrow>
    (let end0 = (case sym_match cond Lt itervar of
                   Some a \<Rightarrow> Some (sym_sub a (integer 1))
                 | None \<Rightarrow> None);
         end1 = (if end0 = None
                 then (case sym_match cond LtE itervar of
                         Some a \<Rightarrow> Some a
                       | None \<Rightarrow> end0)
                 else end0);
         end2 = (if end1 = None
                 then (case sym_match cond Gt itervar of
                         Some a \<Rightarrow> Some (sym_add a (integer 1))
                       | None \<Rightarrow> end1)
                 else end1);
         end3 = (if end2 = None
                 then (case sym_match cond GtE itervar of
                         Some a \<Rightarrow> Some a
                       | None \<Rightarrow> end2)
                 else end2)
     in case end3 of
          None \<Rightarrow> Inr None
        | Some endv \<Rightarrow> Inr (Some (itervar, start, endv, stride)))))))))"

subsection \<open>Forward traversal\<close>

text \<open>
  Modelled from the spec: \<^verbatim>\<open>sdutil.dfs_conditional\<close> is not part of the file. It yields
  the nodes reachable from the sources in depth-first pre-order, with an explicit stack
  of (parent, remaining out-edges). The callback is asked before a child is expanded;
  following the spec, a child that the callback refuses (here: the guard) is still
  visited once, but its out-edges are not followed.
\<close>

function dfs_stack ::
  "SDFG \<Rightarrow> (SDFGState \<Rightarrow> SDFGState \<Rightarrow> bool) \<Rightarrow> SDFGState list \<Rightarrow>
   (SDFGState \<times> Edge list) list \<Rightarrow> SDFGState list" where
  "dfs_stack G cond visited [] = []"
| "dfs_stack G cond visited ((parent, []) # stack) = dfs_stack G cond visited stack"
| "dfs_stack G cond visited ((parent, e # children) # stack) =
     (if dst e \<in> set visited
      then dfs_stack G cond visited ((parent, children) # stack)
      else if cond parent (dst e)
      then dst e # dfs_stack G cond (dst e # visited)
                     ((dst e, out_edges G (dst e)) # (parent, children) # stack)
      else dst e # dfs_stack G cond (dst e # visited) ((parent, children) # stack))"
  by pat_completeness auto

text \<open>
  Termination: every step either marks a new node (among the finitely many targets of
  the edges of the graph and of the stack) or shortens the stack.
\<close>

definition pending ::
  "SDFG \<Rightarrow> SDFGState list \<Rightarrow> (SDFGState \<times> Edge list) list \<Rightarrow> SDFGState set" where
  "pending G visited stack =
     dst ` (set (edges G) \<union> (\<Union>f \<in> set stack. set (snd f))) - set visited"

definition dfs_measure ::
  "SDFG \<times> (SDFGState \<Rightarrow> SDFGState \<Rightarrow> bool) \<times> SDFGState list \<times> (SDFGState \<times> Edge list) list
   \<Rightarrow> SDFGState set \<times> nat" where
  "dfs_measure = (\<lambda>(G, cond, visited, stack).
     (pending G visited stack, sum_list (map (\<lambda>f. Suc (length (snd f))) stack)))"

termination dfs_stack
proof (relation "inv_image (finite_psubset <*lex*> less_than) dfs_measure")
  show "wf (inv_image (finite_psubset <*lex*> less_than) dfs_measure)"
    by (intro wf_inv_image wf_lex_prod wf_finite_psubset wf_less_than)
qed (auto simp: dfs_measure_def pending_def finite_psubset_def out_edges_def)

fun dfs_sources ::
  "SDFG \<Rightarrow> (SDFGState \<Rightarrow> SDFGState \<Rightarrow> bool) \<Rightarrow> SDFGState list \<Rightarrow> SDFGState list
   \<Rightarrow> SDFGState list" where
  "dfs_sources G cond visited [] = []"
| "dfs_sources G cond visited (start # sources) =
     (if start \<in> set visited then dfs_sources G cond visited sources
      else let found = start # dfs_stack G cond (start # visited) [(start, out_edges G start)]
           in found @ dfs_sources G cond (found @ visited) sources)"

definition dfs_conditional ::
  "SDFG \<Rightarrow> SDFGState list \<Rightarrow> (SDFGState \<Rightarrow> SDFGState \<Rightarrow> bool) \<Rightarrow> SDFGState list" where
  "dfs_conditional G sources cond = dfs_sources G cond [] sources"

subsection \<open>Immediate dominators\<close>

text \<open>
  Modelled from the spec: \<^verbatim>\<open>networkx.dominance.immediate_dominators\<close> is not part of the
  file. It maps every node reachable from the start node to its immediate dominator,
  and the start node to itself; a start node outside the graph is an error. The model
  computes dominance from its definition: \<open>d\<close> dominates a reachable node \<open>n\<close> iff
  \<open>d = n\<close> or \<open>n\<close> cannot be reached from the start once \<open>d\<close> is removed, and the
  immediate dominator of \<open>n\<close> is the strict dominator of \<open>n\<close> that every strict
  dominator of \<open>n\<close> dominates; \<open>dominator_items\<close> lists the entries of the dictionary. Reachability is computed by growing the set of reached
  nodes along the edges once per edge of the graph, which is enough to reach every
  node that can be reached.
\<close>

definition grow :: "SDFG \<Rightarrow> SDFGState option \<Rightarrow> SDFGState list \<Rightarrow> SDFGState list" where
  "grow G avoid reached =
     remdups (reached @
       map dst (filter (\<lambda>e. src e \<in> set reached \<and> Some (dst e) \<noteq> avoid) (edges G)))"

definition reachable_avoiding :: "SDFG \<Rightarrow> SDFGState \<Rightarrow> SDFGState option \<Rightarrow> SDFGState list" where
  "reachable_avoiding G start avoid =
     (if Some start = avoid then [] else (grow G avoid ^^ length (edges G)) [start])"

definition dominates :: "SDFG \<Rightarrow> SDFGState \<Rightarrow> SDFGState \<Rightarrow> SDFGState \<Rightarrow> bool" where
  "dominates G start d n \<longleftrightarrow> d = n \<or> n \<notin> set (reachable_avoiding G start (Some d))"

definition idom :: "SDFG \<Rightarrow> SDFGState \<Rightarrow> SDFGState \<Rightarrow> SDFGState option" where
  "idom G start n =
     (let strict = filter (\<lambda>d. d \<noteq> n \<and> dominates G start d n) (reachable_avoiding G start None)
      in find (\<lambda>d. list_all (\<lambda>d'. dominates G start d' d) strict) strict)"

definition dominator_items :: "SDFG \<Rightarrow> SDFGState \<Rightarrow> (SDFGState \<times> SDFGState) list" where
  "dominator_items G start =
     List.map_filter
       (\<lambda>n. if n = start then Some (n, start) else map_option (Pair n) (idom G start n))
       (reachable_avoiding G start None)"

definition immediate_dominators ::
  "SDFG \<Rightarrow> SDFGState \<Rightarrow> error + (SDFGState \<rightharpoonup> SDFGState)" where
  "immediate_dominators G start =
     (if start \<notin> set (nodes G) then Inl NetworkXError
      else Inr (map_of (dominator_items G start)))"

subsection \<open>DetectLoop.can\_be\_applied\<close>

text \<open>
  A candidate binds the three template states to node indices of the graph.
\<close>

record candidate =
  loop_guard :: nat
  loop_begin :: nat
  exit_state :: nat

text \<open>
  The walk up the dominator tree (the \<^verbatim>\<open>while ... else\<close> of the source):
  \<^verbatim>\<open>
  dom = node
  while dom != dominators[dom]:
      if dom == guard:
          break
      dom = dominators[dom]
  else:
      return False
  \<close>
  The result is \<open>Inr True\<close> when the loop is left by \<^verbatim>\<open>break\<close>, \<open>Inr False\<close> when the
  \<^verbatim>\<open>else\<close> branch is taken, and \<open>Inl KeyError\<close> when the node is not a key of the
  dictionary. On a dictionary with a cycle the loop does not return, which is the value
  \<open>None\<close>.
\<close>

partial_function (option) dominator_walk ::
  "(SDFGState \<rightharpoonup> SDFGState) \<Rightarrow> SDFGState \<Rightarrow> SDFGState \<Rightarrow> (error + bool) option" where
  "dominator_walk dominators guard dom_node =
     (case dominators dom_node of
        None \<Rightarrow> Some (Inl KeyError)
      | Some up \<Rightarrow>
          if dom_node \<noteq> up
          then (if dom_node = guard then Some (Inr True) else dominator_walk dominators guard up)
          else Some (Inr False))"

declare dominator_walk.simps [code]

text \<open>
  The \<^verbatim>\<open>for node in loop_nodes\<close> loop with the flag \<^verbatim>\<open>backedge_found\<close>, and the two
  \<^verbatim>\<open>return\<close> statements after it: once the list is exhausted the result is the flag.
\<close>

fun check_loop_nodes ::
  "SDFG \<Rightarrow> SDFGState \<Rightarrow> (SDFGState \<rightharpoonup> SDFGState) \<Rightarrow> SDFGState list \<Rightarrow> bool
   \<Rightarrow> (error + bool) option" where
  "check_loop_nodes graph guard dominators [] backedge_found = Some (Inr backedge_found)"
| "check_loop_nodes graph guard dominators (n # loop_nodes) backedge_found =
     (let backedge_found' =
            (if list_ex (\<lambda>e. dst e = guard) (out_edges graph n) then True else backedge_found)
      in case dominator_walk dominators guard n of
           None \<Rightarrow> None
         | Some (Inl err) \<Rightarrow> Some (Inl err)
         | Some (Inr inside) \<Rightarrow>
             if inside then check_loop_nodes graph guard dominators loop_nodes backedge_found'
             else Some (Inr False))"

text \<open>
  The indexed reads \<open>guard_inedges ! 0\<close>, \<open>guard_inedges ! 1\<close>, \<open>guard_outedges ! 0\<close>,
  \<open>guard_outedges ! 1\<close> and the \<open>hd\<close> of the first dictionary are in range where they
  are evaluated: the lengths have been tested to be 2 and 1 before. The arguments
  \<open>expr_index\<close> and \<open>strict\<close> are those of the source.
\<close>

definition can_be_applied ::
  "SDFG \<Rightarrow> candidate \<Rightarrow> nat \<Rightarrow> SDFG \<Rightarrow> bool \<Rightarrow> (error + bool) option" where
  "can_be_applied graph cand expr_index sdfg strict =
    (case node graph (loop_guard cand) of
       Inl err \<Rightarrow> Some (Inl err)
     | Inr guard \<Rightarrow>
    (case node graph (loop_begin cand) of
       Inl err \<Rightarrow> Some (Inl err)
     | Inr begin \<Rightarrow>
    (let guard_inedges = in_edges graph guard in
     if length guard_inedges \<noteq> 2 then Some (Inr False)
     else
     let guard_outedges = out_edges graph guard in
     if length guard_outedges \<noteq> 2 then Some (Inr False)
     else if length (assignments (data (guard_inedges ! 0))) \<noteq> 1
           \<or> length (assignments (data (guard_inedges ! 1))) \<noteq> 1 then Some (Inr False)
     else
     let itervar = fst (hd (assignments (data (guard_inedges ! 0)))) in
     if itervar \<notin> set (map fst (assignments (data (guard_inedges ! 1)))) then Some (Inr False)
     else if list_ex (\<lambda>e. length (assignments (data e)) > 0) guard_outedges then Some (Inr False)
     else if condition_sympy (data (guard_outedges ! 0))
             \<noteq> sp_Not (condition_sympy (data (guard_outedges ! 1))) then Some (Inr False)
     else
     (case immediate_dominators sdfg (start_state sdfg) of
        Inl err \<Rightarrow> Some (Inl err)
      | Inr dominators \<Rightarrow>
          let loop_nodes = dfs_conditional sdfg [begin] (\<lambda>_ child. child \<noteq> guard)
          in check_loop_nodes graph guard dominators loop_nodes False))))"

subsection \<open>Auxiliary notions for the statements\<close>

text \<open>
  The conjunction of the tests of lines 55 to 79 of the source, read positively: the
  guard has two incoming and two outgoing transitions, each incoming transition has one
  assignment and the variable of the first is assigned by the second, no outgoing
  transition has an assignment, and the first outgoing condition is the negation of
  the second.
\<close>

definition edge_checks_pass :: "SDFG \<Rightarrow> SDFGState \<Rightarrow> bool" where
  "edge_checks_pass graph guard \<longleftrightarrow>
     length (in_edges graph guard) = 2 \<and>
     length (out_edges graph guard) = 2 \<and>
     length (assignments (data (in_edges graph guard ! 0))) = 1 \<and>
     length (assignments (data (in_edges graph guard ! 1))) = 1 \<and>
     fst (hd (assignments (data (in_edges graph guard ! 0))))
       \<in> set (map fst (assignments (data (in_edges graph guard ! 1)))) \<and>
     list_all (\<lambda>e. assignments (data e) = []) (out_edges graph guard) \<and>
     condition_sympy (data (out_edges graph guard ! 0))
       = sp_Not (condition_sympy (data (out_edges graph guard ! 1)))"

text \<open>A node has a back-edge when one of its outgoing transitions leads to the guard.\<close>

definition has_backedge :: "SDFG \<Rightarrow> SDFGState \<Rightarrow> SDFGState \<Rightarrow> bool" where
  "has_backedge graph guard n = list_ex (\<lambda>e. dst e = guard) (out_edges graph n)"

text \<open>
  \<open>dominator_chain dominators n m\<close>: \<open>m\<close> occurs on the chain of immediate dominators
  that starts at \<open>n\<close> (\<open>n\<close>, its immediate dominator, and so on).
\<close>

inductive dominator_chain ::
  "(SDFGState \<rightharpoonup> SDFGState) \<Rightarrow> SDFGState \<Rightarrow> SDFGState \<Rightarrow> bool"
  for dominators :: "SDFGState \<rightharpoonup> SDFGState" where
  here: "dominator_chain dominators n n"
| up: "dominators n = Some d \<Longrightarrow> dominator_chain dominators d m
       \<Longrightarrow> dominator_chain dominators n m"

text \<open>
  \<open>root_without_guard dominators guard n\<close>: the chain that starts at \<open>n\<close> arrives at a
  node that is its own immediate dominator, and no node before it on the chain is the
  guard.
\<close>

inductive root_without_guard ::
  "(SDFGState \<rightharpoonup> SDFGState) \<Rightarrow> SDFGState \<Rightarrow> SDFGState \<Rightarrow> bool"
  for dominators :: "SDFGState \<rightharpoonup> SDFGState" and guard :: SDFGState where
  root: "dominators n = Some n \<Longrightarrow> root_without_guard dominators guard n"
| pass: "dominators n = Some d \<Longrightarrow> n \<noteq> d \<Longrightarrow> n \<noteq> guard
         \<Longrightarrow> root_without_guard dominators guard d
         \<Longrightarrow> root_without_guard dominators guard n"

subsection \<open>Example state machines\<close>

definition mk_edge ::
  "SDFGState \<Rightarrow> SDFGState \<Rightarrow> (string \<times> aexpr) list \<Rightarrow> bexpr \<Rightarrow> Edge" where
  "mk_edge u v a c = \<lparr>src = u, dst = v, data = \<lparr>assignments = a, condition = c\<rparr>\<rparr>"

text \<open>The condition \<open>i op n\<close>.\<close>

definition i_cmp :: "relop \<Rightarrow> int \<Rightarrow> bexpr" where
  "i_cmp op n = Compare op (Name ''i'') (Num n)"

text \<open>The transitions \<open>init \<rightarrow> guard\<close> with \<open>{i := 0}\<close> and \<open>entry \<rightarrow> guard\<close> with \<open>{i := i + 1}\<close>.\<close>

definition init_edge :: Edge where
  "init_edge = mk_edge ''init'' ''guard'' [(''i'', Num 0)] (NameConstant True)"

definition increment_edge :: Edge where
  "increment_edge =
     mk_edge ''entry'' ''guard'' [(''i'', BinAdd (Name ''i'') (Num 1))] (NameConstant True)"

text \<open>
  A state machine on the states \<open>init\<close> (the start state), \<open>guard\<close>, \<open>entry\<close> and
  \<open>exit\<close>: the given transitions, listed first, then \<open>guard \<rightarrow> entry\<close> and
  \<open>guard \<rightarrow> exit\<close> with the given conditions and no assignments.
\<close>

definition loop_graph :: "Edge list \<Rightarrow> bexpr \<Rightarrow> bexpr \<Rightarrow> SDFG" where
  "loop_graph inedges continue leave =
     \<lparr>nodes = [''init'', ''guard'', ''entry'', ''exit''],
      edges = inedges @
        [mk_edge ''guard'' ''entry'' [] continue, mk_edge ''guard'' ''exit'' [] leave],
      start_state = ''init''\<rparr>"

text \<open>
  The base loop with a given continuation condition \<open>c\<close>: incoming transitions
  \<open>{i := 0}\<close> and \<open>{i := i + 1}\<close> (the back-edge from \<open>entry\<close>), outgoing conditions
  \<open>c\<close> and \<open>not c\<close>. The canonical loop has \<open>c = i < 10\<close>; its mirror lists the
  two incoming transitions in the other order.
\<close>

definition base_loop :: "bexpr \<Rightarrow> SDFG" where
  "base_loop continue = loop_graph [init_edge, increment_edge] continue (UnaryNot continue)"

definition canonical_loop :: SDFG where
  "canonical_loop = base_loop (i_cmp Lt 10)"

definition canonical_loop_mirrored :: SDFG where
  "canonical_loop_mirrored =
     loop_graph [increment_edge, init_edge] (i_cmp Lt 10) (UnaryNot (i_cmp Lt 10))"

text \<open>The candidate that binds guard, loop begin and exit to the nodes 1, 2 and 3.\<close>

definition triple :: candidate where
  "triple = \<lparr>loop_guard = 1, loop_begin = 2, exit_state = 3\<rparr>"

text \<open>
  A loop at the very start of the program, inside an endless outer loop: the guard is
  the start state, the body \<open>entry\<close> returns to it with \<open>{i := i + 1}\<close>, and the exit
  state returns to it with \<open>{i := 0}\<close>.
\<close>

definition guard_first :: SDFG where
  "guard_first =
     \<lparr>nodes = [''guard'', ''entry'', ''exit''],
      edges = [mk_edge ''exit'' ''guard'' [(''i'', Num 0)] (NameConstant True),
               mk_edge ''entry'' ''guard'' [(''i'', BinAdd (Name ''i'') (Num 1))]
                 (NameConstant True),
               mk_edge ''guard'' ''entry'' [] (i_cmp Lt 10),
               mk_edge ''guard'' ''exit'' [] (UnaryNot (i_cmp Lt 10))],
      start_state = ''guard''\<rparr>"

definition guard_first_triple :: candidate where
  "guard_first_triple = \<lparr>loop_guard = 0, loop_begin = 1, exit_state = 2\<rparr>"

text \<open>
  A guard whose body never returns to it: the increment comes from the exit state,
  and \<open>entry\<close> has no outgoing transition.
\<close>

definition dead_end_body :: SDFG where
  "dead_end_body =
     loop_graph
       [init_edge,
        mk_edge ''exit'' ''guard'' [(''i'', BinAdd (Name ''i'') (Num 1))] (NameConstant True)]
       (i_cmp Lt 10) (UnaryNot (i_cmp Lt 10))"

text \<open>
  An initialisation transition that assigns two variables, \<open>{j := 0, i := 0}\<close>, listed
  after the increment and, in the second state machine, before it.
\<close>

definition double_init_edge :: Edge where
  "double_init_edge =
     mk_edge ''init'' ''guard'' [(''j'', Num 0), (''i'', Num 0)] (NameConstant True)"

definition double_init_loop :: SDFG where
  "double_init_loop =
     loop_graph [increment_edge, double_init_edge] (i_cmp Lt 10) (UnaryNot (i_cmp Lt 10))"

definition double_init_loop_swapped :: SDFG where
  "double_init_loop_swapped =
     loop_graph [double_init_edge, increment_edge] (i_cmp Lt 10) (UnaryNot (i_cmp Lt 10))"

subsection \<open>Lemmas on the model\<close>

lemma can_be_applied_rejects:
  assumes "node graph (loop_guard cand) = Inr guard"
    and "node graph (loop_begin cand) = Inr begin"
    and "\<not> edge_checks_pass graph guard"
  shows "can_be_applied graph cand expr_index sdfg strict = Some (Inr False)"
  using assms
  by (auto simp: can_be_applied_def edge_checks_pass_def Let_def list_ex_iff list_all_iff
           split: sum.splits)

lemma can_be_applied_dominance:
  assumes "node graph (loop_guard cand) = Inr guard"
    and "node graph (loop_begin cand) = Inr begin"
    and "edge_checks_pass graph guard"
  shows "can_be_applied graph cand expr_index sdfg strict =
     (case immediate_dominators sdfg (start_state sdfg) of
        Inl err \<Rightarrow> Some (Inl err)
      | Inr dominators \<Rightarrow>
          check_loop_nodes graph guard dominators
            (dfs_conditional sdfg [begin] (\<lambda>_ child. child \<noteq> guard)) False)"
  using assms
  by (auto simp: can_be_applied_def edge_checks_pass_def Let_def list_ex_iff list_all_iff
           split: sum.splits)

lemma inedge_update_0:
  assumes "assignments (data e0) = (itervar, r0) # others"
  shows "inedge_update (e0 # es) 0 itervar = Inr (pystr_to_symbolic r0)"
  using assms by (simp add: inedge_update_def)

lemma inedge_update_1:
  assumes "map_of (assignments (data e1)) itervar = Some r1"
  shows "inedge_update (e0 # e1 # es) (Suc 0) itervar = Inr (pystr_to_symbolic r1)"
  using assms by (simp add: inedge_update_def)

text \<open>
  The walk accepts a node whose chain passes through the guard, provided the guard is
  not its own immediate dominator.
\<close>

lemma walk_accepts:
  assumes "dominator_chain dominators n guard"
    and "dominators guard = Some d" and "d \<noteq> guard"
  shows "dominator_walk dominators guard n = Some (Inr True)"
  using assms
proof (induction rule: dominator_chain.induct)
  case (here n)
  then show ?case by (simp add: dominator_walk.simps)
next
  case (up n d' m)
  then show ?case by (cases "n = d'") (auto simp: dominator_walk.simps)
qed

text \<open>The walk takes the \<^verbatim>\<open>else\<close> branch when the chain arrives at a root first.\<close>

lemma walk_rejects:
  assumes "root_without_guard dominators guard n"
  shows "dominator_walk dominators guard n = Some (Inr False)"
  using assms
  by (induction rule: root_without_guard.induct) (simp_all add: dominator_walk.simps)

text \<open>
  When the guard is its own immediate dominator, the walk takes the \<^verbatim>\<open>else\<close> branch
  also for a node whose chain passes through the guard: the test of the \<^verbatim>\<open>while\<close>
  fails at the guard before the body can compare the node with the guard.
\<close>

lemma walk_rejects_guard_root:
  assumes "dominator_chain dominators n guard" and "dominators guard = Some guard"
  shows "dominator_walk dominators guard n = Some (Inr False)"
  using assms
proof (induction rule: dominator_chain.induct)
  case (here n)
  then show ?case by (simp add: dominator_walk.simps)
next
  case (up n d' m)
  then show ?case by (cases "n = d'") (auto simp: dominator_walk.simps)
qed

lemma check_loop_nodes_inside:
  assumes "list_all (\<lambda>n. dominator_walk dominators guard n = Some (Inr True)) ns"
  shows "check_loop_nodes graph guard dominators ns found =
           Some (Inr (found \<or> list_ex (has_backedge graph guard) ns))"
  using assms
  by (induction ns arbitrary: found) (auto simp: has_backedge_def)

lemma check_loop_nodes_outside:
  assumes "list_all (\<lambda>n. dominator_walk dominators guard n = Some (Inr True)) before"
    and "dominator_walk dominators guard n = Some (Inr False)"
  shows "check_loop_nodes graph guard dominators (before @ n # rest) found = Some (Inr False)"
  using assms
  by (induction before arbitrary: found) auto

text \<open>
  Validation rejects the candidate as soon as a visited node arrives at a root without
  passing through the guard, whatever the nodes after it are.
\<close>

lemma node_outside_rejected:
  assumes "node graph (loop_guard cand) = Inr guard"
    and "node graph (loop_begin cand) = Inr begin"
    and "edge_checks_pass graph guard"
    and "immediate_dominators sdfg (start_state sdfg) = Inr dominators"
    and "dfs_conditional sdfg [begin] (\<lambda>_ child. child \<noteq> guard) = before @ n # rest"
    and "list_all (\<lambda>m. dominator_chain dominators m guard) before"
    and "dominators guard = Some d" and "d \<noteq> guard"
    and "root_without_guard dominators guard n"
  shows "can_be_applied graph cand expr_index sdfg strict = Some (Inr False)"
proof -
  have "list_all (\<lambda>m. dominator_walk dominators guard m = Some (Inr True)) before"
    using assms(6,7,8) by (auto simp: list_all_iff intro: walk_accepts)
  then show ?thesis
    using assms(1-5,9)
    by (simp add: can_be_applied_dominance check_loop_nodes_outside walk_rejects)
qed

text \<open>The traversal yields its source first.\<close>

lemma dfs_conditional_source:
  "dfs_conditional G [s] cond = s # dfs_stack G cond [s] [(s, out_edges G s)]"
  by (simp add: dfs_conditional_def)

text \<open>
  When the guard is its own immediate dominator and dominates the loop-begin state,
  validation returns \<open>False\<close> at the first visited node, whatever the rest of the graph.
\<close>

lemma guard_root_rejected:
  assumes "node graph (loop_guard cand) = Inr guard"
    and "node graph (loop_begin cand) = Inr begin"
    and "edge_checks_pass graph guard"
    and "immediate_dominators sdfg (start_state sdfg) = Inr dominators"
    and "dominators guard = Some guard"
    and "dominator_chain dominators begin guard"
  shows "can_be_applied graph cand expr_index sdfg strict = Some (Inr False)"
proof -
  have "dominator_walk dominators guard begin = Some (Inr False)"
    using assms(6,5) by (rule walk_rejects_guard_root)
  then have "check_loop_nodes graph guard dominators
      ([] @ begin # dfs_stack sdfg (\<lambda>_ child. child \<noteq> guard) [begin] [(begin, out_edges sdfg begin)])
      False = Some (Inr False)"
    by (intro check_loop_nodes_outside) simp_all
  then show ?thesis
    using assms(1-4) by (simp add: can_be_applied_dominance dfs_conditional_source)
qed

subsection \<open>Facts about the example state machines\<close>

lemma loop_graph_in_edges:
  assumes "list_all (\<lambda>e. dst e = ''guard'') inedges"
  shows "in_edges (loop_graph inedges c1 c2) ''guard'' = inedges"
  using assms
  by (simp add: in_edges_def loop_graph_def mk_edge_def list_all_iff)

lemma loop_graph_edges_between:
  assumes "list_all (\<lambda>e. dst e = ''guard'') inedges"
  shows "edges_between (loop_graph inedges c1 c2) ''guard'' ''entry''
           = [mk_edge ''guard'' ''entry'' [] c1]"
  using assms
  by (auto simp: edges_between_def loop_graph_def mk_edge_def list_all_iff filter_empty_conv)

lemma loop_graph_out_edges:
  assumes "list_all (\<lambda>e. src e \<noteq> ''guard'') inedges"
  shows "out_edges (loop_graph inedges c1 c2) ''guard''
           = [mk_edge ''guard'' ''entry'' [] c1, mk_edge ''guard'' ''exit'' [] c2]"
  using assms
  by (auto simp: out_edges_def loop_graph_def mk_edge_def list_all_iff filter_empty_conv)

lemma loop_graph_node:
  "node (loop_graph inedges c1 c2) (loop_guard triple) = Inr ''guard''"
  "node (loop_graph inedges c1 c2) (loop_begin triple) = Inr ''entry''"
  by (simp_all add: node_def loop_graph_def triple_def)

section \<open>The claims\<close>

text \<open>
  C1. On the canonical loop (incoming transitions \<open>{i := 0}\<close> and \<open>{i := i + 1}\<close>, the
  second being the back-edge from \<open>entry\<close>; outgoing conditions \<open>i < 10\<close> to \<open>entry\<close>
  and \<open>not (i < 10)\<close> to \<open>exit\<close>; a start state before the guard), validation returns
  \<open>True\<close> and extraction on guard and entry returns the variable \<open>i\<close> with start 0,
  inclusive end 9 and stride 1. The same holds when the two incoming transitions are
  listed in the other order.
\<close>

theorem canonical_loop_detected:
  "node canonical_loop (loop_guard triple) = Inr ''guard''
   \<and> node canonical_loop (loop_begin triple) = Inr ''entry''
   \<and> can_be_applied canonical_loop triple expr_index canonical_loop strict = Some (Inr True)
   \<and> find_for_loop canonical_loop ''guard'' ''entry''
       = Inr (Some (''i'', integer 0, integer 9, integer 1))
   \<and> can_be_applied canonical_loop_mirrored triple expr_index canonical_loop_mirrored strict
       = Some (Inr True)
   \<and> find_for_loop canonical_loop_mirrored ''guard'' ''entry''
       = Inr (Some (''i'', integer 0, integer 9, integer 1))"
proof -
  have "node canonical_loop (loop_guard triple) = Inr ''guard''"
    and "node canonical_loop (loop_begin triple) = Inr ''entry''"
    by code_simp+
  moreover have "can_be_applied canonical_loop triple expr_index canonical_loop strict
      = Some (Inr True)"
    by code_simp
  moreover have "find_for_loop canonical_loop ''guard'' ''entry''
      = Inr (Some (''i'', integer 0, integer 9, integer 1))"
    by code_simp
  moreover have "can_be_applied canonical_loop_mirrored triple expr_index
      canonical_loop_mirrored strict = Some (Inr True)"
    by code_simp
  moreover have "find_for_loop canonical_loop_mirrored ''guard'' ''entry''
      = Inr (Some (''i'', integer 0, integer 9, integer 1))"
    by code_simp
  ultimately show ?thesis by simp
qed

theorem canonical_loop_detected_witness:
  "can_be_applied canonical_loop triple 0 canonical_loop False = Some (Inr True)
   \<and> find_for_loop canonical_loop ''guard'' ''entry'' = Inr (Some (''i'', Lin 0 [], Lin 9 [], Lin 1 []))"
  using canonical_loop_detected [of 0 False] by (simp add: integer_def)

text \<open>
  C8. Whenever the candidate's guard and loop-begin indices name nodes of the graph and
  the guard does not have exactly two incoming transitions, or does not have exactly
  two outgoing transitions, validation returns \<open>False\<close>.
\<close>

theorem guard_degree_rejected:
  assumes "node graph (loop_guard cand) = Inr guard"
    and "node graph (loop_begin cand) = Inr begin"
    and "length (in_edges graph guard) \<noteq> 2 \<or> length (out_edges graph guard) \<noteq> 2"
  shows "can_be_applied graph cand expr_index sdfg strict = Some (Inr False)"
  using assms by (auto simp: can_be_applied_def Let_def)

theorem guard_degree_rejected_witness:
  "length (in_edges (loop_graph [init_edge] (i_cmp Lt 10) (UnaryNot (i_cmp Lt 10))) ''guard'') = 1
   \<and> can_be_applied (loop_graph [init_edge] (i_cmp Lt 10) (UnaryNot (i_cmp Lt 10))) triple 0
        (loop_graph [init_edge] (i_cmp Lt 10) (UnaryNot (i_cmp Lt 10))) False = Some (Inr False)"
proof -
  let ?G = "loop_graph [init_edge] (i_cmp Lt 10) (UnaryNot (i_cmp Lt 10))"
  have d: "length (in_edges ?G ''guard'') = 1"
    by (simp add: loop_graph_in_edges init_edge_def mk_edge_def)
  then have "length (in_edges ?G ''guard'') \<noteq> 2 \<or> length (out_edges ?G ''guard'') \<noteq> 2"
    by simp
  from guard_degree_rejected [OF loop_graph_node this] d show ?thesis by simp
qed

text \<open>
  C9. Whenever the candidate's indices name nodes of the graph and the guard's two
  incoming transitions do not each carry exactly one assignment, or each carry exactly
  one assignment but to two different variable names, validation returns \<open>False\<close>.
\<close>

theorem incoming_assignments_rejected:
  assumes "node graph (loop_guard cand) = Inr guard"
    and "node graph (loop_begin cand) = Inr begin"
    and "in_edges graph guard = [e0, e1]"
    and "length (assignments (data e0)) \<noteq> 1 \<or> length (assignments (data e1)) \<noteq> 1 \<or>
         (\<exists>x a y b. assignments (data e0) = [(x, a)] \<and> assignments (data e1) = [(y, b)] \<and> x \<noteq> y)"
  shows "can_be_applied graph cand expr_index sdfg strict = Some (Inr False)"
  using assms by (auto simp: can_be_applied_def Let_def)

theorem incoming_assignments_rejected_witness:
  "can_be_applied
     (loop_graph [init_edge, mk_edge ''entry'' ''guard'' [(''j'', BinAdd (Name ''j'') (Num 1))]
                               (NameConstant True)]
        (i_cmp Lt 10) (UnaryNot (i_cmp Lt 10)))
     triple 0
     (loop_graph [init_edge, mk_edge ''entry'' ''guard'' [(''j'', BinAdd (Name ''j'') (Num 1))]
                               (NameConstant True)]
        (i_cmp Lt 10) (UnaryNot (i_cmp Lt 10)))
     False = Some (Inr False)
   \<and> can_be_applied (loop_graph [init_edge, double_init_edge] (i_cmp Lt 10) (UnaryNot (i_cmp Lt 10)))
       triple 0
       (loop_graph [init_edge, double_init_edge] (i_cmp Lt 10) (UnaryNot (i_cmp Lt 10)))
       False = Some (Inr False)"
proof -
  let ?other = "mk_edge ''entry'' ''guard'' [(''j'', BinAdd (Name ''j'') (Num 1))] (NameConstant True)"
  let ?G = "loop_graph [init_edge, ?other] (i_cmp Lt 10) (UnaryNot (i_cmp Lt 10))"
  let ?H = "loop_graph [init_edge, double_init_edge] (i_cmp Lt 10) (UnaryNot (i_cmp Lt 10))"
  have g: "in_edges ?G ''guard'' = [init_edge, ?other]"
    by (rule loop_graph_in_edges) (simp add: init_edge_def mk_edge_def)
  have "\<exists>x a y b. assignments (data init_edge) = [(x, a)]
          \<and> assignments (data ?other) = [(y, b)] \<and> x \<noteq> y"
    by (simp add: init_edge_def mk_edge_def)
  then have different:
    "length (assignments (data init_edge)) \<noteq> 1 \<or> length (assignments (data ?other)) \<noteq> 1 \<or>
     (\<exists>x a y b. assignments (data init_edge) = [(x, a)]
          \<and> assignments (data ?other) = [(y, b)] \<and> x \<noteq> y)"
    by blast
  have h: "in_edges ?H ''guard'' = [init_edge, double_init_edge]"
    by (rule loop_graph_in_edges) (simp add: init_edge_def double_init_edge_def mk_edge_def)
  have two:
    "length (assignments (data init_edge)) \<noteq> 1
     \<or> length (assignments (data double_init_edge)) \<noteq> 1 \<or>
     (\<exists>x a y b. assignments (data init_edge) = [(x, a)]
          \<and> assignments (data double_init_edge) = [(y, b)] \<and> x \<noteq> y)"
    by (simp add: double_init_edge_def mk_edge_def)
  show ?thesis
    using incoming_assignments_rejected [OF loop_graph_node g different]
      incoming_assignments_rejected [OF loop_graph_node h two]
    by simp
qed

text \<open>
  C4. For a candidate whose guard passes the degree and incoming-assignment checks,
  validation returns \<open>False\<close> unless both outgoing transitions carry no assignments and
  the condition of the first is, after normalisation, structurally the negation of the
  condition of the second. The instance of the witness: the outgoing conditions
  \<open>i < 10\<close> and \<open>i > 10\<close> are rejected.
\<close>

theorem outgoing_checks_rejected:
  assumes "node graph (loop_guard cand) = Inr guard"
    and "node graph (loop_begin cand) = Inr begin"
    and "in_edges graph guard = [e0, e1]"
    and "assignments (data e0) = [(x, a)]" and "assignments (data e1) = [(x, b)]"
    and "out_edges graph guard = [o0, o1]"
    and "\<not> (assignments (data o0) = [] \<and> assignments (data o1) = [] \<and>
            condition_sympy (data o0) = sp_Not (condition_sympy (data o1)))"
  shows "can_be_applied graph cand expr_index sdfg strict = Some (Inr False)"
  using assms by (auto simp: can_be_applied_def Let_def)

theorem outgoing_checks_rejected_witness:
  "condition_sympy (data (mk_edge ''guard'' ''entry'' [] (i_cmp Lt 10)))
     = Rel Lt (symbol ''i'') (integer 10)
   \<and> sp_Not (condition_sympy (data (mk_edge ''guard'' ''exit'' [] (i_cmp Gt 10))))
     = Rel LtE (symbol ''i'') (integer 10)
   \<and> can_be_applied (loop_graph [init_edge, increment_edge] (i_cmp Lt 10) (i_cmp Gt 10)) triple 0
       (loop_graph [init_edge, increment_edge] (i_cmp Lt 10) (i_cmp Gt 10)) False
     = Some (Inr False)"
proof -
  let ?G = "loop_graph [init_edge, increment_edge] (i_cmp Lt 10) (i_cmp Gt 10)"
  let ?o0 = "mk_edge ''guard'' ''entry'' [] (i_cmp Lt 10)"
  let ?o1 = "mk_edge ''guard'' ''exit'' [] (i_cmp Gt 10)"
  have i: "in_edges ?G ''guard'' = [init_edge, increment_edge]"
    by (rule loop_graph_in_edges) (simp add: init_edge_def increment_edge_def mk_edge_def)
  have out: "out_edges ?G ''guard'' = [?o0, ?o1]"
    by (rule loop_graph_out_edges) (simp add: init_edge_def increment_edge_def mk_edge_def)
  have a0: "assignments (data init_edge) = [(''i'', Num 0)]"
    by (simp add: init_edge_def mk_edge_def)
  have a1: "assignments (data increment_edge) = [(''i'', BinAdd (Name ''i'') (Num 1))]"
    by (simp add: increment_edge_def mk_edge_def)
  have c0: "condition_sympy (data ?o0) = Rel Lt (symbol ''i'') (integer 10)"
    by (simp add: condition_sympy_def mk_edge_def i_cmp_def)
  have c1: "sp_Not (condition_sympy (data ?o1)) = Rel LtE (symbol ''i'') (integer 10)"
    by (simp add: condition_sympy_def mk_edge_def i_cmp_def)
  have "\<not> (assignments (data ?o0) = [] \<and> assignments (data ?o1) = [] \<and>
            condition_sympy (data ?o0) = sp_Not (condition_sympy (data ?o1)))"
    by (simp add: c0 c1)
  from outgoing_checks_rejected [OF loop_graph_node i a0 a1 out this] c0 c1
  show ?thesis by simp
qed

text \<open>
  C10. Validation does not inspect the exit-state binding of the candidate, the
  template index \<open>expr_index\<close> or the flag \<open>strict\<close>: two calls that differ only in
  these inputs return the same result.
\<close>

theorem unused_inputs:
  "can_be_applied graph (cand\<lparr>exit_state := other\<rparr>) expr_index' sdfg strict'
     = can_be_applied graph cand expr_index sdfg strict"
  by (simp add: can_be_applied_def split: sum.splits)

theorem unused_inputs_witness:
  "can_be_applied canonical_loop (triple\<lparr>exit_state := 0\<rparr>) 1 canonical_loop True
     = Some (Inr True)
   \<and> can_be_applied dead_end_body (triple\<lparr>exit_state := 7\<rparr>) 1 dead_end_body True
     = Some (Inr False)"
proof -
  have "can_be_applied canonical_loop triple 0 canonical_loop False = Some (Inr True)"
    by code_simp
  moreover have "can_be_applied dead_end_body triple 0 dead_end_body False = Some (Inr False)"
    by code_simp
  ultimately show ?thesis
    using unused_inputs [where graph = canonical_loop and cand = triple and other = 0
          and expr_index' = 1 and sdfg = canonical_loop and strict' = True
          and expr_index = 0 and strict = False]
      unused_inputs [where graph = dead_end_body and cand = triple and other = 7
          and expr_index' = 1 and sdfg = dead_end_body and strict' = True
          and expr_index = 0 and strict = False]
    by simp
qed

lemma dead_end_body_dominators:
  "immediate_dominators dead_end_body (start_state dead_end_body)
     = Inr (map_of [(''init'', ''init''), (''guard'', ''init''), (''entry'', ''guard''),
                    (''exit'', ''guard'')])"
proof -
  have "dominator_items dead_end_body ''init''
      = [(''init'', ''init''), (''guard'', ''init''), (''entry'', ''guard''), (''exit'', ''guard'')]"
    by code_simp
  then show ?thesis
    by (simp add: immediate_dominators_def dead_end_body_def loop_graph_def)
qed

lemma guard_first_dominators:
  "immediate_dominators guard_first (start_state guard_first)
     = Inr (map_of [(''guard'', ''guard''), (''entry'', ''guard''), (''exit'', ''guard'')])"
proof -
  have "dominator_items guard_first ''guard''
      = [(''guard'', ''guard''), (''entry'', ''guard''), (''exit'', ''guard'')]"
    by code_simp
  then show ?thesis
    by (simp add: immediate_dominators_def guard_first_def)
qed

text \<open>
  C7. For a candidate that passes the edge checks and whose visited nodes all pass the
  dominator walk, validation returns \<open>True\<close> exactly when some visited node has a
  transition to the guard; without such a back-edge it returns \<open>False\<close>.
\<close>

theorem backedge_required:
  assumes "node graph (loop_guard cand) = Inr guard"
    and "node graph (loop_begin cand) = Inr begin"
    and "edge_checks_pass graph guard"
    and "immediate_dominators sdfg (start_state sdfg) = Inr dominators"
    and "loop_nodes = dfs_conditional sdfg [begin] (\<lambda>_ child. child \<noteq> guard)"
    and "list_all (\<lambda>n. dominator_walk dominators guard n = Some (Inr True)) loop_nodes"
  shows "can_be_applied graph cand expr_index sdfg strict =
           Some (Inr (list_ex (has_backedge graph guard) loop_nodes))"
  using assms
  by (simp add: can_be_applied_dominance check_loop_nodes_inside)

theorem backedge_required_witness:
  "dfs_conditional dead_end_body [''entry''] (\<lambda>_ child. child \<noteq> ''guard'') = [''entry'']
   \<and> \<not> has_backedge dead_end_body ''guard'' ''entry''
   \<and> can_be_applied dead_end_body triple 0 dead_end_body False = Some (Inr False)"
proof -
  let ?D = "map_of [(''init'', ''init''), (''guard'', ''init''), (''entry'', ''guard''),
                    (''exit'', ''guard'')]"
  have n: "node dead_end_body (loop_guard triple) = Inr ''guard''"
       "node dead_end_body (loop_begin triple) = Inr ''entry''"
    by (simp_all add: dead_end_body_def loop_graph_node)
  have shape: "edge_checks_pass dead_end_body ''guard''"
    by code_simp
  have visited:
    "[''entry''] = dfs_conditional dead_end_body [''entry''] (\<lambda>_ child. child \<noteq> ''guard'')"
    by code_simp
  have inside: "list_all (\<lambda>n. dominator_walk ?D ''guard'' n = Some (Inr True)) [''entry'']"
    by (simp add: dominator_walk.simps)
  have none: "\<not> has_backedge dead_end_body ''guard'' ''entry''"
    by code_simp
  from backedge_required [OF n shape dead_end_body_dominators visited inside] none visited
  show ?thesis by simp
qed

lemma edge_facts:
  "dst init_edge = ''guard''" "dst increment_edge = ''guard''" "dst double_init_edge = ''guard''"
  "assignments (data init_edge) = [(''i'', Num 0)]"
  "assignments (data increment_edge) = [(''i'', BinAdd (Name ''i'') (Num 1))]"
  "assignments (data double_init_edge) = [(''j'', Num 0), (''i'', Num 0)]"
  by (simp_all add: init_edge_def increment_edge_def double_init_edge_def mk_edge_def)

lemma free_symbols_examples:
  "''i'' \<notin> free_symbols (pystr_to_symbolic (Num 0))"
  "''i'' \<in> free_symbols (pystr_to_symbolic (BinAdd (Name ''i'') (Num 1)))"
  "''i'' \<in> free_symbols (pystr_to_symbolic (Name ''i''))"
  "''i'' \<notin> free_symbols (pystr_to_symbolic (BinSub (Name ''i'') (Name ''i'')))"
  by (simp_all add: symbol_def integer_def sym_sub_def)

text \<open>
  C6. Let \<open>E0\<close> and \<open>E1\<close> be the expressions that the guard's first two incoming
  transitions assign to the iteration variable (the first key of the first
  transition's dictionary). If both contain the iteration variable as a free symbol,
  or neither does, extraction returns \<open>None\<close>. Otherwise the expression that contains
  the variable is the increment and the other the initialisation: whenever extraction
  returns a result, its stride is the increment minus the iteration variable and its
  start is the initialisation expression.
\<close>

theorem update_classification:
  assumes "in_edges sdfg guard = e0 # e1 # es"
    and "edges_between sdfg guard entry = ce # ces"
    and "assignments (data e0) = (itervar, r0) # others"
    and "map_of (assignments (data e1)) itervar = Some r1"
  shows "((itervar \<in> free_symbols (pystr_to_symbolic r0))
            = (itervar \<in> free_symbols (pystr_to_symbolic r1))
          \<longrightarrow> find_for_loop sdfg guard entry = Inr None)
       \<and> (itervar \<in> free_symbols (pystr_to_symbolic r0)
            \<and> itervar \<notin> free_symbols (pystr_to_symbolic r1)
          \<longrightarrow> find_for_loop sdfg guard entry = Inr None \<or>
              (\<exists>endv. find_for_loop sdfg guard entry =
                 Inr (Some (itervar, pystr_to_symbolic r1, endv,
                            sym_sub (pystr_to_symbolic r0) (symbol itervar)))))
       \<and> (itervar \<in> free_symbols (pystr_to_symbolic r1)
            \<and> itervar \<notin> free_symbols (pystr_to_symbolic r0)
          \<longrightarrow> find_for_loop sdfg guard entry = Inr None \<or>
              (\<exists>endv. find_for_loop sdfg guard entry =
                 Inr (Some (itervar, pystr_to_symbolic r0, endv,
                            sym_sub (pystr_to_symbolic r1) (symbol itervar)))))"
  using assms
  by (auto simp: find_for_loop_def Let_def inedge_update_0 inedge_update_1 split: option.splits)

theorem update_classification_witness:
  "find_for_loop (loop_graph [mk_edge ''init'' ''guard'' [(''i'', Name ''i'')] (NameConstant True),
                              increment_edge] (i_cmp Lt 10) (UnaryNot (i_cmp Lt 10)))
      ''guard'' ''entry'' = Inr None
   \<and> find_for_loop (loop_graph [init_edge,
         mk_edge ''entry'' ''guard'' [(''i'', BinSub (Name ''i'') (Name ''i''))] (NameConstant True)]
         (i_cmp Lt 10) (UnaryNot (i_cmp Lt 10)))
      ''guard'' ''entry'' = Inr None
   \<and> (\<exists>endv. find_for_loop canonical_loop_mirrored ''guard'' ''entry''
         = Inr (Some (''i'', integer 0, endv, integer 1)))
   \<and> (\<exists>endv. find_for_loop canonical_loop ''guard'' ''entry''
         = Inr (Some (''i'', integer 0, endv, integer 1)))"
proof -
  let ?both = "mk_edge ''init'' ''guard'' [(''i'', Name ''i'')] (NameConstant True)"
  let ?neither =
    "mk_edge ''entry'' ''guard'' [(''i'', BinSub (Name ''i'') (Name ''i''))] (NameConstant True)"
  let ?c = "i_cmp Lt 10"
  let ?ce = "mk_edge ''guard'' ''entry'' [] ?c"
  have more: "dst ?both = ''guard''" "dst ?neither = ''guard''"
    "assignments (data ?both) = (''i'', Name ''i'') # []"
    "map_of (assignments (data ?neither)) ''i'' = Some (BinSub (Name ''i'') (Name ''i''))"
    by (simp_all add: mk_edge_def)
  have lookups: "assignments (data init_edge) = (''i'', Num 0) # []"
    "assignments (data increment_edge) = (''i'', BinAdd (Name ''i'') (Num 1)) # []"
    "map_of (assignments (data init_edge)) ''i'' = Some (Num 0)"
    "map_of (assignments (data increment_edge)) ''i'' = Some (BinAdd (Name ''i'') (Num 1))"
    by (simp_all add: edge_facts)
  have both:
    "find_for_loop (loop_graph [?both, increment_edge] ?c (UnaryNot ?c)) ''guard'' ''entry''
       = Inr None"
  proof -
    have i: "in_edges (loop_graph [?both, increment_edge] ?c (UnaryNot ?c)) ''guard''
        = ?both # increment_edge # []"
      by (rule loop_graph_in_edges) (simp add: more edge_facts)
    have b: "edges_between (loop_graph [?both, increment_edge] ?c (UnaryNot ?c)) ''guard'' ''entry''
        = ?ce # []"
      by (rule loop_graph_edges_between) (simp add: more edge_facts)
    from update_classification [OF i b more(3) lookups(4)] free_symbols_examples
    show ?thesis by blast
  qed
  have neither:
    "find_for_loop (loop_graph [init_edge, ?neither] ?c (UnaryNot ?c)) ''guard'' ''entry''
       = Inr None"
  proof -
    have i: "in_edges (loop_graph [init_edge, ?neither] ?c (UnaryNot ?c)) ''guard''
        = init_edge # ?neither # []"
      by (rule loop_graph_in_edges) (simp add: more edge_facts)
    have b: "edges_between (loop_graph [init_edge, ?neither] ?c (UnaryNot ?c)) ''guard'' ''entry''
        = ?ce # []"
      by (rule loop_graph_edges_between) (simp add: more edge_facts)
    from update_classification [OF i b lookups(1) more(4)] free_symbols_examples
    show ?thesis by blast
  qed
  have found: "find_for_loop canonical_loop_mirrored ''guard'' ''entry'' \<noteq> Inr None"
    "find_for_loop canonical_loop ''guard'' ''entry'' \<noteq> Inr None"
    by code_simp+
  have vals: "sym_sub (pystr_to_symbolic (BinAdd (Name ''i'') (Num 1))) (symbol ''i'') = integer 1"
    "pystr_to_symbolic (Num 0) = integer 0"
    by (simp_all add: symbol_def integer_def sym_sub_def)
  have first:
    "\<exists>endv. find_for_loop canonical_loop_mirrored ''guard'' ''entry''
         = Inr (Some (''i'', integer 0, endv, integer 1))"
  proof -
    have i: "in_edges canonical_loop_mirrored ''guard'' = increment_edge # init_edge # []"
      unfolding canonical_loop_mirrored_def
      by (rule loop_graph_in_edges) (simp add: edge_facts)
    have b: "edges_between canonical_loop_mirrored ''guard'' ''entry'' = ?ce # []"
      unfolding canonical_loop_mirrored_def
      by (rule loop_graph_edges_between) (simp add: edge_facts)
    from update_classification [OF i b lookups(2) lookups(3)] free_symbols_examples found(1)
    show ?thesis unfolding vals by blast
  qed
  have second:
    "\<exists>endv. find_for_loop canonical_loop ''guard'' ''entry''
         = Inr (Some (''i'', integer 0, endv, integer 1))"
  proof -
    have i: "in_edges canonical_loop ''guard'' = init_edge # increment_edge # []"
      unfolding canonical_loop_def base_loop_def
      by (rule loop_graph_in_edges) (simp add: edge_facts)
    have b: "edges_between canonical_loop ''guard'' ''entry'' = ?ce # []"
      unfolding canonical_loop_def base_loop_def
      by (rule loop_graph_edges_between) (simp add: edge_facts)
    from update_classification [OF i b lookups(1) lookups(4)] free_symbols_examples found(2)
    show ?thesis unfolding vals by blast
  qed
  from both neither first second show ?thesis by simp
qed

text \<open>
  C3. Once the two updates are classified, extraction tests the condition of the first
  guard-to-entry transition against the templates \<open>itervar < a\<close>, \<open>itervar \<le> a\<close>,
  \<open>itervar > a\<close>, \<open>itervar \<ge> a\<close> in this order; the first template that matches
  decides the inclusive end (\<open>a - 1\<close>, \<open>a\<close>, \<open>a + 1\<close>, \<open>a\<close>), and when none matches the
  result is \<open>None\<close>. Start and stride do not enter the choice of the end.
\<close>

theorem end_by_first_matching_template:
  assumes "in_edges sdfg guard = e0 # e1 # es"
    and "edges_between sdfg guard entry = ce # ces"
    and "assignments (data e0) = (itervar, r0) # others"
    and "map_of (assignments (data e1)) itervar = Some r1"
    and "(itervar \<in> free_symbols (pystr_to_symbolic r0))
           \<noteq> (itervar \<in> free_symbols (pystr_to_symbolic r1))"
    and "start = (if itervar \<in> free_symbols (pystr_to_symbolic r0)
                  then pystr_to_symbolic r1 else pystr_to_symbolic r0)"
    and "stride = sym_sub (if itervar \<in> free_symbols (pystr_to_symbolic r0)
                           then pystr_to_symbolic r0 else pystr_to_symbolic r1)
                          (symbol itervar)"
    and "cond = condition_sympy (data ce)"
  shows "find_for_loop sdfg guard entry =
     (case sym_match cond Lt itervar of
        Some a \<Rightarrow> Inr (Some (itervar, start, sym_sub a (integer 1), stride))
      | None \<Rightarrow>
     (case sym_match cond LtE itervar of
        Some a \<Rightarrow> Inr (Some (itervar, start, a, stride))
      | None \<Rightarrow>
     (case sym_match cond Gt itervar of
        Some a \<Rightarrow> Inr (Some (itervar, start, sym_add a (integer 1), stride))
      | None \<Rightarrow>
     (case sym_match cond GtE itervar of
        Some a \<Rightarrow> Inr (Some (itervar, start, a, stride))
      | None \<Rightarrow> Inr None))))"
  using assms
  by (auto simp: find_for_loop_def Let_def inedge_update_0 inedge_update_1 split: option.splits)

theorem end_by_first_matching_template_witness:
  "find_for_loop (base_loop (i_cmp Lt 10)) ''guard'' ''entry''
     = Inr (Some (''i'', integer 0, integer 9, integer 1))
   \<and> find_for_loop (base_loop (i_cmp LtE 10)) ''guard'' ''entry''
     = Inr (Some (''i'', integer 0, integer 10, integer 1))
   \<and> find_for_loop (base_loop (i_cmp Gt 0)) ''guard'' ''entry''
     = Inr (Some (''i'', integer 0, integer 1, integer 1))
   \<and> find_for_loop (base_loop (i_cmp GtE 0)) ''guard'' ''entry''
     = Inr (Some (''i'', integer 0, integer 0, integer 1))
   \<and> find_for_loop (base_loop (Compare Lt (Name ''j'') (Num 10))) ''guard'' ''entry'' = Inr None
   \<and> find_for_loop (base_loop (NameConstant True)) ''guard'' ''entry'' = Inr None"
proof -
  have i: "in_edges (base_loop c) ''guard'' = init_edge # increment_edge # []" for c
    unfolding base_loop_def by (rule loop_graph_in_edges) (simp add: edge_facts)
  have b: "edges_between (base_loop c) ''guard'' ''entry''
      = mk_edge ''guard'' ''entry'' [] c # []" for c
    unfolding base_loop_def by (rule loop_graph_edges_between) (simp add: edge_facts)
  have a0: "assignments (data init_edge) = (''i'', Num 0) # []"
    by (simp add: edge_facts)
  have a1: "map_of (assignments (data increment_edge)) ''i'' = Some (BinAdd (Name ''i'') (Num 1))"
    by (simp add: edge_facts)
  have one: "(''i'' \<in> free_symbols (pystr_to_symbolic (Num 0)))
      \<noteq> (''i'' \<in> free_symbols (pystr_to_symbolic (BinAdd (Name ''i'') (Num 1))))"
    by code_simp
  have start: "integer 0 = (if ''i'' \<in> free_symbols (pystr_to_symbolic (Num 0))
      then pystr_to_symbolic (BinAdd (Name ''i'') (Num 1)) else pystr_to_symbolic (Num 0))"
    by code_simp
  have stride: "integer 1 = sym_sub (if ''i'' \<in> free_symbols (pystr_to_symbolic (Num 0))
      then pystr_to_symbolic (Num 0) else pystr_to_symbolic (BinAdd (Name ''i'') (Num 1)))
      (symbol ''i'')"
    by code_simp
  have c: "cond_to_symbolic c = condition_sympy (data (mk_edge ''guard'' ''entry'' [] c))" for c
    by (simp add: condition_sympy_def mk_edge_def)
  note chain = end_by_first_matching_template [OF i b a0 a1 one start stride c]
  have "find_for_loop (base_loop (i_cmp Lt 10)) ''guard'' ''entry''
     = Inr (Some (''i'', integer 0, integer 9, integer 1))"
    unfolding chain by code_simp
  moreover have "find_for_loop (base_loop (i_cmp LtE 10)) ''guard'' ''entry''
     = Inr (Some (''i'', integer 0, integer 10, integer 1))"
    unfolding chain by code_simp
  moreover have "find_for_loop (base_loop (i_cmp Gt 0)) ''guard'' ''entry''
     = Inr (Some (''i'', integer 0, integer 1, integer 1))"
    unfolding chain by code_simp
  moreover have "find_for_loop (base_loop (i_cmp GtE 0)) ''guard'' ''entry''
     = Inr (Some (''i'', integer 0, integer 0, integer 1))"
    unfolding chain by code_simp
  moreover have "find_for_loop (base_loop (Compare Lt (Name ''j'') (Num 10))) ''guard'' ''entry''
     = Inr None"
    unfolding chain by code_simp
  moreover have "find_for_loop (base_loop (NameConstant True)) ''guard'' ''entry'' = Inr None"
    unfolding chain by code_simp
  ultimately show ?thesis by simp
qed

text \<open>
  C5, as amended. When each of the guard's two incoming transitions carries exactly
  one assignment (the shape that validation accepts) and the listing of the
  guard-to-entry transitions is the same, listing the two incoming transitions in the
  other order does not change what extraction returns, be it a result, \<open>None\<close> or a
  failure.
\<close>

theorem swap_single_assignments:
  assumes "in_edges g guard = [e0, e1]"
    and "in_edges g' guard = [e1, e0]"
    and "edges_between g' guard entry = edges_between g guard entry"
    and "assignments (data e0) = [(x, a)]"
    and "assignments (data e1) = [(y, b)]"
  shows "find_for_loop g' guard entry = find_for_loop g guard entry"
  using assms
  by (cases "x = y")
     (auto simp: find_for_loop_def Let_def inedge_update_def split: list.splits option.splits)

theorem swap_single_assignments_witness:
  "find_for_loop canonical_loop_mirrored ''guard'' ''entry''
     = find_for_loop canonical_loop ''guard'' ''entry''
   \<and> find_for_loop canonical_loop ''guard'' ''entry''
     = Inr (Some (''i'', integer 0, integer 9, integer 1))"
proof -
  have i: "in_edges canonical_loop ''guard'' = [init_edge, increment_edge]"
    unfolding canonical_loop_def base_loop_def
    by (rule loop_graph_in_edges) (simp add: edge_facts)
  have i': "in_edges canonical_loop_mirrored ''guard'' = [increment_edge, init_edge]"
    unfolding canonical_loop_mirrored_def
    by (rule loop_graph_in_edges) (simp add: edge_facts)
  have b: "edges_between canonical_loop_mirrored ''guard'' ''entry''
      = edges_between canonical_loop ''guard'' ''entry''"
    unfolding canonical_loop_mirrored_def canonical_loop_def base_loop_def
    by (simp add: loop_graph_edges_between edge_facts)
  have "find_for_loop canonical_loop ''guard'' ''entry''
      = Inr (Some (''i'', integer 0, integer 9, integer 1))"
    by code_simp
  with swap_single_assignments [OF i i' b edge_facts(4) edge_facts(5)]
  show ?thesis by simp
qed

text \<open>
  C5, as stated, fails: extraction succeeds on a guard whose initialisation transition
  assigns \<open>{j := 0, i := 0}\<close> when the increment is listed first, and raises
  \<^verbatim>\<open>KeyError\<close> when the same two transitions are listed in the other order.
\<close>

theorem swap_changes_result_counterexample:
  "nodes double_init_loop_swapped = nodes double_init_loop
   \<and> start_state double_init_loop_swapped = start_state double_init_loop
   \<and> edges double_init_loop_swapped
       = (edges double_init_loop)[0 := edges double_init_loop ! 1, 1 := edges double_init_loop ! 0]
   \<and> in_edges double_init_loop ''guard'' = [increment_edge, double_init_edge]
   \<and> in_edges double_init_loop_swapped ''guard'' = [double_init_edge, increment_edge]
   \<and> find_for_loop double_init_loop ''guard'' ''entry''
       = Inr (Some (''i'', integer 0, integer 9, integer 1))
   \<and> find_for_loop double_init_loop_swapped ''guard'' ''entry'' = Inl KeyError"
proof -
  have "nodes double_init_loop_swapped = nodes double_init_loop"
    and "start_state double_init_loop_swapped = start_state double_init_loop"
    and "edges double_init_loop_swapped
       = (edges double_init_loop)[0 := edges double_init_loop ! 1, 1 := edges double_init_loop ! 0]"
    by (simp_all add: double_init_loop_def double_init_loop_swapped_def loop_graph_def)
  moreover have "in_edges double_init_loop ''guard'' = [increment_edge, double_init_edge]"
    unfolding double_init_loop_def
    by (rule loop_graph_in_edges) (simp add: edge_facts)
  moreover have "in_edges double_init_loop_swapped ''guard'' = [double_init_edge, increment_edge]"
    unfolding double_init_loop_swapped_def
    by (rule loop_graph_in_edges) (simp add: edge_facts)
  moreover have "find_for_loop double_init_loop ''guard'' ''entry''
       = Inr (Some (''i'', integer 0, integer 9, integer 1))"
    by code_simp
  moreover have "find_for_loop double_init_loop_swapped ''guard'' ''entry'' = Inl KeyError"
    by code_simp
  ultimately show ?thesis by simp
qed

text \<open>
  C2, evaluated where the guard is the start state. In \<open>guard_first\<close> the edge checks
  pass, the traversal from \<open>entry\<close> visits \<open>entry\<close> and the guard, \<open>entry\<close> has a
  back-edge, and the guard is on the dominator chain of every visited node. The guard
  is its own immediate dominator, so the walk from \<open>entry\<close> ends in the \<^verbatim>\<open>else\<close>
  branch and validation returns \<open>False\<close>.
\<close>

theorem guard_as_start_state_rejected:
  "node guard_first (loop_guard guard_first_triple) = Inr ''guard''
   \<and> node guard_first (loop_begin guard_first_triple) = Inr ''entry''
   \<and> start_state guard_first = ''guard''
   \<and> edge_checks_pass guard_first ''guard''
   \<and> dfs_conditional guard_first [''entry''] (\<lambda>_ child. child \<noteq> ''guard'')
       = [''entry'', ''guard'']
   \<and> has_backedge guard_first ''guard'' ''entry''
   \<and> (\<exists>dominators.
         immediate_dominators guard_first (start_state guard_first) = Inr dominators
         \<and> dominators ''guard'' = Some ''guard''
         \<and> dominator_chain dominators ''entry'' ''guard''
         \<and> dominator_chain dominators ''guard'' ''guard''
         \<and> dominator_walk dominators ''guard'' ''entry'' = Some (Inr False))
   \<and> can_be_applied guard_first guard_first_triple expr_index guard_first strict
       = Some (Inr False)"
proof -
  let ?D = "map_of [(''guard'', ''guard''), (''entry'', ''guard''), (''exit'', ''guard'')]"
  have "node guard_first (loop_guard guard_first_triple) = Inr ''guard''"
    and "node guard_first (loop_begin guard_first_triple) = Inr ''entry''"
    and "start_state guard_first = ''guard''"
    by (simp_all add: node_def guard_first_def guard_first_triple_def)
  moreover have "edge_checks_pass guard_first ''guard''"
    by code_simp
  moreover have "dfs_conditional guard_first [''entry''] (\<lambda>_ child. child \<noteq> ''guard'')
       = [''entry'', ''guard'']"
    by code_simp
  moreover have "has_backedge guard_first ''guard'' ''entry''"
    by code_simp
  moreover have "\<exists>dominators.
         immediate_dominators guard_first (start_state guard_first) = Inr dominators
         \<and> dominators ''guard'' = Some ''guard''
         \<and> dominator_chain dominators ''entry'' ''guard''
         \<and> dominator_chain dominators ''guard'' ''guard''
         \<and> dominator_walk dominators ''guard'' ''entry'' = Some (Inr False)"
  proof (intro exI conjI)
    show "immediate_dominators guard_first (start_state guard_first) = Inr ?D"
      by (rule guard_first_dominators)
    show "?D ''guard'' = Some ''guard''"
      by simp
    show "dominator_chain ?D ''guard'' ''guard''"
      by (rule dominator_chain.here)
    then show chain: "dominator_chain ?D ''entry'' ''guard''"
      by (rule dominator_chain.up [rotated]) simp
    show "dominator_walk ?D ''guard'' ''entry'' = Some (Inr False)"
      by (rule walk_rejects_guard_root [OF chain]) simp
  qed
  moreover have "can_be_applied guard_first guard_first_triple expr_index guard_first strict
       = Some (Inr False)"
    by code_simp
  ultimately show ?thesis by simp
qed

theorem guard_as_start_state_rejected_witness:
  "can_be_applied guard_first guard_first_triple 0 guard_first False \<noteq> Some (Inr True)
   \<and> find_for_loop guard_first ''guard'' ''entry''
       = Inr (Some (''i'', integer 0, integer 9, integer 1))"
proof -
  have "find_for_loop guard_first ''guard'' ''entry''
       = Inr (Some (''i'', integer 0, integer 9, integer 1))"
    by code_simp
  with guard_as_start_state_rejected [of 0 False] show ?thesis by simp
qed

end
